theory Spec2Isabelle
  imports Complex_Main "HOL-Library.Sublist" "HOL-Library.AList"
begin

section \<open>Strings as the Python source uses them\<close>

text \<open>
  Python strings are modelled as \<^typ>\<open>string\<close>, one \<^typ>\<open>char\<close> per character; the
  character classes below are those of \<open>str\<close> and \<open>re\<close> on ASCII text, which is the
  domain of this development.
\<close>

definition code :: "char \<Rightarrow> nat" where
  "code c = of_char c"

definition is_upper :: "char \<Rightarrow> bool" where
  "is_upper c = (65 \<le> code c \<and> code c \<le> 90)"

definition is_lower :: "char \<Rightarrow> bool" where
  "is_lower c = (97 \<le> code c \<and> code c \<le> 122)"

definition is_digit :: "char \<Rightarrow> bool" where
  "is_digit c = (48 \<le> code c \<and> code c \<le> 57)"

definition is_alpha :: "char \<Rightarrow> bool" where
  "is_alpha c = (is_upper c \<or> is_lower c)"

text \<open>The class \<open>\w\<close> of \<open>re\<close>: letters, digits and the underscore.\<close>

definition is_word_char :: "char \<Rightarrow> bool" where
  "is_word_char c = (is_alpha c \<or> is_digit c \<or> code c = 95)"

text \<open>\<open>str.isspace\<close>: tab to carriage return, the four separators, the blank.\<close>

definition is_space :: "char \<Rightarrow> bool" where
  "is_space c = ((9 \<le> code c \<and> code c \<le> 13) \<or> (28 \<le> code c \<and> code c \<le> 32))"

definition lower_char :: "char \<Rightarrow> char" where
  "lower_char c = (if is_upper c then char_of (code c + 32) else c)"

text \<open>\<open>s.lower()\<close>\<close>

definition lower :: "string \<Rightarrow> string" where
  "lower s = map lower_char s"

text \<open>\<open>s.isalpha()\<close>: every character a letter, and at least one character.\<close>

definition isalpha :: "string \<Rightarrow> bool" where
  "isalpha s = (s \<noteq> [] \<and> list_all is_alpha s)"

text \<open>\<open>s.split()\<close>: maximal runs of non-blank characters, in order.\<close>

fun split_acc :: "string \<Rightarrow> string \<Rightarrow> string list" where
  "split_acc w [] = (if w = [] then [] else [w])"
| "split_acc w (c # cs) =
     (if is_space c then (if w = [] then split_acc [] cs else w # split_acc [] cs)
      else split_acc (w @ [c]) cs)"

definition split :: "string \<Rightarrow> string list" where
  "split s = split_acc [] s"

text \<open>\<open>q in t\<close> on strings: \<open>q\<close> starts at some position of \<open>t\<close>.\<close>

fun str_contains :: "string \<Rightarrow> string \<Rightarrow> bool" where
  "str_contains [] q = (q = [])"
| "str_contains (c # cs) q = (prefix q (c # cs) \<or> str_contains cs q)"

text \<open>\<open>s.endswith(e)\<close>\<close>

definition endswith :: "string \<Rightarrow> string \<Rightarrow> bool" where
  "endswith s e = suffix e s"

subsection \<open>The pattern \<open>\bW\b\<close> for a literal \<open>W\<close>\<close>

text \<open>
  \<open>re.search(r'\b{}\b'.format(re.escape(word)), text)\<close> looks for the first position
  where the literal \<open>word\<close> starts, with a word boundary before it and one after it.
  A boundary lies between two positions exactly when one side is a \<open>\w\<close> character and
  the other is not; the outside of the text counts as not \<open>\w\<close>. \<open>prev\<close> says whether
  the character before the current position is a \<open>\w\<close> character.
\<close>

definition boundary :: "bool \<Rightarrow> string \<Rightarrow> bool" where
  "boundary prev rest = (prev \<noteq> (case rest of [] \<Rightarrow> False | c # _ \<Rightarrow> is_word_char c))"

definition match_here :: "string \<Rightarrow> bool \<Rightarrow> string \<Rightarrow> bool" where
  "match_here w prev rest =
     (boundary prev rest \<and> prefix w rest \<and>
      boundary (if w = [] then prev else is_word_char (last w)) (drop (length w) rest))"

text \<open>The result is the span \<open>(match.start(), match.end())\<close>, or \<open>None\<close>.\<close>

fun re_search_from :: "string \<Rightarrow> bool \<Rightarrow> nat \<Rightarrow> string \<Rightarrow> (nat \<times> nat) option" where
  "re_search_from w prev i [] = (if match_here w prev [] then Some (i, i + length w) else None)"
| "re_search_from w prev i (c # cs) =
     (if match_here w prev (c # cs) then Some (i, i + length w)
      else re_search_from w (is_word_char c) (Suc i) cs)"

definition re_search_word :: "string \<Rightarrow> string \<Rightarrow> (nat \<times> nat) option" where
  "re_search_word w text = re_search_from w False 0 text"

subsection \<open>The token patterns\<close>

text \<open>
  \<open>re.findall(r'\b\w+\b', s)\<close> lists the maximal runs of \<open>\w\<close> characters. A match
  of \<open>\b[a-zA-Z]{k,}\b\<close> starts and ends at a word boundary and holds letters only, so
  it is such a run, made of letters, of length \<open>k\<close> at least; a run with a digit or an
  underscore in it yields no match.
\<close>

fun runs_acc :: "string \<Rightarrow> string \<Rightarrow> string list" where
  "runs_acc w [] = (if w = [] then [] else [w])"
| "runs_acc w (c # cs) =
     (if is_word_char c then runs_acc (w @ [c]) cs
      else (if w = [] then runs_acc [] cs else w # runs_acc [] cs))"

definition findall_words :: "string \<Rightarrow> string list" where
  "findall_words s = runs_acc [] s"

definition findall_alpha :: "nat \<Rightarrow> string \<Rightarrow> string list" where
  "findall_alpha k s = filter (\<lambda>w. k \<le> length w \<and> list_all is_alpha w) (findall_words s)"

text \<open>\<open>' '.join(ws)\<close>\<close>

fun join_blank :: "string list \<Rightarrow> string" where
  "join_blank [] = []"
| "join_blank [w] = w"
| "join_blank (w # ws) = w @ '' '' @ join_blank ws"

text \<open>\<open>url.split('/')[-1]\<close>: what follows the last slash.\<close>

definition last_component :: "string \<Rightarrow> string" where
  "last_component url = rev (takeWhile (\<lambda>c. c \<noteq> CHR ''/'') (rev url))"

section \<open>Exceptions\<close>

text \<open>The exceptions that the modelled code raises, each with its message.\<close>

datatype exn =
    AttributeError string
  | KeyError string
  | UnboundLocalError string
  | JSONDecodeError
  | RequestException string
  | NetworkXError string
  | ValueError string

text \<open>\<open>str(e)\<close>\<close>

fun exn_str :: "exn \<Rightarrow> string" where
  "exn_str (AttributeError m) = m"
| "exn_str (KeyError m) = m"
| "exn_str (UnboundLocalError m) = m"
| "exn_str JSONDecodeError = ''Expecting value''"
| "exn_str (RequestException m) = m"
| "exn_str (NetworkXError m) = m"
| "exn_str (ValueError m) = m"

section \<open>Counting and sorting as Python does\<close>

text \<open>
  \<open>sorted(xs, key=k, reverse=True)\<close> is stable: elements with equal keys stay in their
  order. \<open>xs[:n]\<close> drops from the end for a negative \<open>n\<close>.
\<close>

definition sorted_desc :: "('a \<Rightarrow> int) \<Rightarrow> 'a list \<Rightarrow> 'a list" where
  "sorted_desc k xs = sort_key (\<lambda>x. - k x) xs"

definition slice_to :: "int \<Rightarrow> 'a list \<Rightarrow> 'a list" where
  "slice_to n xs = (if 0 \<le> n then take (nat n) xs else take (length xs - nat (- n)) xs)"

text \<open>\<open>d[k] = d.get(k, 0) + 1\<close> on a dictionary, which keeps the place of an old key.\<close>

definition bump :: "string \<Rightarrow> (string \<times> int) list \<Rightarrow> (string \<times> int) list" where
  "bump k d = AList.update k ((case map_of d k of None \<Rightarrow> 0 | Some c \<Rightarrow> c) + 1) d"

text \<open>\<open>Counter(ws)\<close> and \<open>Counter(ws).most_common(n)\<close>.\<close>

definition counter :: "string list \<Rightarrow> (string \<times> int) list" where
  "counter ws = fold bump ws []"

definition most_common :: "int \<Rightarrow> (string \<times> int) list \<Rightarrow> (string \<times> int) list" where
  "most_common n d = (if n \<le> 0 then [] else take (nat n) (sorted_desc snd d))"

section \<open>The knowledge graph\<close>

text \<open>
  \<open>self.knowledge_graph\<close> is a \<open>networkx.Graph\<close>: a dictionary from a node to its
  attribute dictionary, and a dictionary from a node to the dictionary of its neighbours
  with the attributes of the edge. Both keep insertion order, which the loops over nodes
  and neighbours follow, so they are association lists. The source stores the node
  attributes \<open>type\<close>, \<open>url\<close> and \<open>themes\<close>, any of which a node may lack, and the
  edge attributes \<open>weight\<close> and \<open>section\<close>, always both.
\<close>

record node_attrs =
  n_type :: "string option"
  n_url :: "string option"
  n_themes :: "string list option"

record edge_attrs =
  e_weight :: int
  e_section :: string

record graph =
  g_node :: "(string \<times> node_attrs) list"
  g_adj :: "(string \<times> (string \<times> edge_attrs) list) list"

definition empty_graph :: graph where
  "empty_graph = \<lparr>g_node = [], g_adj = []\<rparr>"

definition no_attrs :: node_attrs where
  "no_attrs = \<lparr>n_type = None, n_url = None, n_themes = None\<rparr>"

text \<open>\<open>n in G\<close>\<close>

definition has_node :: "graph \<Rightarrow> string \<Rightarrow> bool" where
  "has_node g n = (map_of (g_node g) n \<noteq> None)"

text \<open>The neighbour dictionary of a node in an adjacency, empty for a node without one.\<close>

definition adj_list :: "(string \<times> (string \<times> edge_attrs) list) list \<Rightarrow> string \<Rightarrow> (string \<times> edge_attrs) list" where
  "adj_list a u = (case map_of a u of Some nb \<Rightarrow> nb | None \<Rightarrow> [])"

text \<open>
  \<open>G.add_node(n, **attr)\<close>: a new node gets an empty neighbour dictionary and the
  attributes; the attributes of a node already there are updated, key by key, and the
  others stay. \<open>upd\<close> writes the given keys.
\<close>

definition add_node :: "graph \<Rightarrow> string \<Rightarrow> (node_attrs \<Rightarrow> node_attrs) \<Rightarrow> graph" where
  "add_node g n upd =
     (case map_of (g_node g) n of
        None \<Rightarrow> g\<lparr>g_node := AList.update n (upd no_attrs) (g_node g),
                   g_adj := AList.update n [] (g_adj g)\<rparr>
      | Some a \<Rightarrow> g\<lparr>g_node := AList.update n (upd a) (g_node g)\<rparr>)"

text \<open>
  \<open>G.add_edge(u, v, weight=w, section=s)\<close>: both ends become nodes if they are not,
  and the attribute dictionary of the pair, with both of its keys written, is stored in
  the neighbour dictionary of each end.
\<close>

definition set_edge ::
  "(string \<times> (string \<times> edge_attrs) list) list \<Rightarrow> string \<Rightarrow> string \<Rightarrow> edge_attrs \<Rightarrow>
   (string \<times> (string \<times> edge_attrs) list) list" where
  "set_edge a u v d =
     (let a1 = AList.update u (AList.update v d (adj_list a u)) a
      in AList.update v (AList.update u d (adj_list a1 v)) a1)"

definition add_edge :: "graph \<Rightarrow> string \<Rightarrow> string \<Rightarrow> edge_attrs \<Rightarrow> graph" where
  "add_edge g u v d =
     (let g1 = (if has_node g u then g else add_node g u id);
          g2 = (if has_node g1 v then g1 else add_node g1 v id)
      in g2\<lparr>g_adj := set_edge (g_adj g2) u v d\<rparr>)"

text \<open>\<open>G.get_edge_data(u, v)\<close>: the attributes of the edge, if there is one.\<close>

definition edge_attr :: "graph \<Rightarrow> string \<Rightarrow> string \<Rightarrow> edge_attrs option" where
  "edge_attr g u v = map_of (adj_list (g_adj g) u) v"

text \<open>
  The shape of a \<open>networkx.Graph\<close>: no key twice in a dictionary, the same keys in the
  node dictionary and in the adjacency, and every edge stored at both of its ends with
  the same attributes.
\<close>

definition wf_graph :: "graph \<Rightarrow> bool" where
  "wf_graph g =
     (distinct (map fst (g_node g)) \<and> distinct (map fst (g_adj g)) \<and>
      set (map fst (g_adj g)) = set (map fst (g_node g)) \<and>
      (\<forall>(u, nb) \<in> set (g_adj g).
         distinct (map fst nb) \<and> (\<forall>(v, d) \<in> set nb. edge_attr g v u = Some d)))"

text \<open>The same shape, said of the dictionaries as maps.\<close>

definition wf_map :: "graph \<Rightarrow> bool" where
  "wf_map g =
     (distinct (map fst (g_node g)) \<and> distinct (map fst (g_adj g)) \<and>
      fst ` set (g_adj g) = fst ` set (g_node g) \<and>
      (\<forall>u. distinct (map fst (adj_list (g_adj g) u))) \<and>
      (\<forall>u v d. edge_attr g u v = Some d \<longrightarrow> edge_attr g v u = Some d))"

text \<open>\<open>G.neighbors(n)\<close> raises for a node that is not in the graph.\<close>

definition neighbors :: "graph \<Rightarrow> string \<Rightarrow> exn + string list" where
  "neighbors g n =
     (case map_of (g_adj g) n of
        None \<Rightarrow> Inl (NetworkXError n)
      | Some nb \<Rightarrow> Inr (map fst nb))"

text \<open>\<open>G.nodes[n]['type']\<close> raises for a missing node and for a missing key.\<close>

definition node_type :: "graph \<Rightarrow> string \<Rightarrow> exn + string" where
  "node_type g n =
     (case map_of (g_node g) n of
        None \<Rightarrow> Inl (KeyError n)
      | Some a \<Rightarrow> (case n_type a of None \<Rightarrow> Inl (KeyError ''type'') | Some t \<Rightarrow> Inr t))"

text \<open>\<open>G.nodes[n].get('type')\<close>, for a node of the graph.\<close>

definition get_type :: "graph \<Rightarrow> string \<Rightarrow> string option" where
  "get_type g n = (case map_of (g_node g) n of None \<Rightarrow> None | Some a \<Rightarrow> n_type a)"

text \<open>
  What every graph built by the source satisfies: the two dictionaries have the same
  keys, every node has a type, and every neighbour is a node.
\<close>

definition graph_ok :: "graph \<Rightarrow> bool" where
  "graph_ok g =
     (fst ` set (g_adj g) = fst ` set (g_node g) \<and>
      (\<forall>(n, a) \<in> set (g_node g). n_type a \<noteq> None) \<and>
      (\<forall>(u, nb) \<in> set (g_adj g). \<forall>(v, d) \<in> set nb. has_node g v))"

subsection \<open>The persisted form\<close>

text \<open>
  \<open>nx.node_link_data(G)\<close> lists every node with its attributes, in the order of the
  node dictionary, and every edge once with its attributes: \<open>G.edges(data=True)\<close> goes
  through the nodes in order and, for each, through its neighbours, leaving out the
  neighbours that it has gone through as nodes before. \<open>json.dump\<close> and \<open>json.load\<close>
  carry the strings, the integers and the lists of this form unchanged.
\<close>

record graph_data =
  d_nodes :: "(string \<times> node_attrs) list"
  d_links :: "(string \<times> string \<times> edge_attrs) list"

fun edges_from :: "string list \<Rightarrow> (string \<times> (string \<times> edge_attrs) list) list \<Rightarrow> (string \<times> string \<times> edge_attrs) list" where
  "edges_from seen [] = []"
| "edges_from seen ((n, nbrs) # rest) =
     map (\<lambda>(nbr, dd). (n, nbr, dd)) (filter (\<lambda>(nbr, dd). nbr \<notin> set seen) nbrs)
     @ edges_from (n # seen) rest"

definition node_link_data :: "graph \<Rightarrow> graph_data" where
  "node_link_data g = \<lparr>d_nodes = g_node g, d_links = edges_from [] (g_adj g)\<rparr>"

text \<open>
  \<open>nx.node_link_graph(data)\<close> starts from the empty graph, adds every listed node with
  its attributes and then every listed edge with its attributes.
\<close>

definition set_attrs :: "node_attrs \<Rightarrow> node_attrs \<Rightarrow> node_attrs" where
  "set_attrs new old =
     \<lparr>n_type = (case n_type new of None \<Rightarrow> n_type old | Some t \<Rightarrow> Some t),
      n_url = (case n_url new of None \<Rightarrow> n_url old | Some u \<Rightarrow> Some u),
      n_themes = (case n_themes new of None \<Rightarrow> n_themes old | Some ts \<Rightarrow> Some ts)\<rparr>"

definition node_link_graph :: "graph_data \<Rightarrow> graph" where
  "node_link_graph data =
     fold (\<lambda>(src, tgt, dd) g. add_edge g src tgt dd) (d_links data)
       (fold (\<lambda>(n, a) g. add_node g n (set_attrs a)) (d_nodes data) empty_graph)"

section \<open>The collaborators and the cache directory\<close>

text \<open>A cached document, as \<open>fetch_publication_content\<close> writes it (lines 165-173, 199-208).\<close>

record content =
  abstract :: string
  results :: string
  conclusion :: string
  full_text :: string
  source :: string
  status :: string
  error :: "string option"
  timestamp :: int

text \<open>
  A file of the cache directory: a JSON document, the persisted graph, a \<open>.json\<close>
  file that \<open>json.load\<close> rejects, or the raw page saved for debugging.
\<close>

datatype cache_file = Json content | GraphJson graph_data | Invalid | RawHtml string

type_synonym cache_dir = "(string \<times> cache_file) list"

text \<open>A row of \<open>publications_df\<close>: \<open>(row['Title'], row['Link'])\<close>.\<close>

type_synonym row = "string \<times> string"

text \<open>What the page of a successful request yields (lines 110-155).\<close>

record page =
  html :: string
  abstract_text :: string
  results_text :: string
  conclusion_text :: string
  article_text :: string

text \<open>
  Everything outside the class that its methods call: the corpus read from the CSV file,
  the stop words, NLTK, Python's process-local \<open>hash\<close>, the network with the page
  parser (\<open>Inl\<close> when anything in lines 110-155 raises), the random sample of
  \<open>publications_df.sample\<close> for a publication, the terms and scores that
  \<open>TfidfVectorizer\<close> with \<open>argsort\<close> puts in \<open>top_keywords\<close> at line 675, and the
  clock.
\<close>

record env =
  publications_df :: "row list"
  stop_words :: "string list"
  word_tokenize :: "string \<Rightarrow> string list option"
  porter_stem :: "string \<Rightarrow> string"
  py_hash :: "string \<Rightarrow> int"
  http_get :: "string \<Rightarrow> exn + page"
  df_sample :: "string \<Rightarrow> nat \<Rightarrow> row list"
  tfidf_top_keywords :: "string list \<Rightarrow> int \<Rightarrow> exn + (string \<times> rat) list"
  time_now :: int

text \<open>Lines 44-56: the stop words that the constructor uses when NLTK has none.\<close>

definition basic_stop_words :: "string list" where
  "basic_stop_words =
     [''a'', ''an'', ''the'', ''and'', ''or'', ''but'', ''if'', ''because'', ''as'',
      ''what'', ''which'', ''this'', ''that'', ''these'', ''those'', ''then'', ''just'',
      ''so'', ''than'', ''such'', ''when'', ''who'', ''how'', ''where'', ''why'', ''is'',
      ''are'', ''was'', ''were'', ''be'', ''been'', ''being'', ''have'', ''has'',
      ''had'', ''having'', ''do'', ''does'', ''did'', ''doing'', ''to'', ''at'', ''by'',
      ''for'', ''with'', ''about'', ''against'', ''between'', ''into'', ''through'',
      ''during'', ''before'', ''after'', ''above'', ''below'', ''from'', ''up'',
      ''down'', ''in'', ''out'', ''on'', ''off'', ''over'', ''under'', ''again'',
      ''further'', ''once'', ''here'', ''there'', ''all'', ''any'', ''both'', ''each'',
      ''few'', ''more'', ''most'', ''other'', ''some'', ''no'', ''nor'', ''not'',
      ''only'', ''own'', ''same'', ''too'', ''very'', ''can'', ''will'', ''should'',
      ''now'', ''of'', ''i'', ''me'', ''my'', ''myself'', ''we'', ''our'', ''ours'',
      ''ourselves'', ''you'', ''your'', ''yours'', ''yourself'', ''yourselves'', ''he'',
      ''him'', ''his'', ''himself'', ''she'', ''her'', ''hers'', ''herself'', ''it'',
      ''its'', ''itself'', ''they'', ''them'', ''their'', ''theirs'', ''themselves'']"

text \<open>\<open>str(n)\<close> for an integer.\<close>

fun str_nat :: "nat \<Rightarrow> string" where
  "str_nat n = (if n < 10 then [char_of (48 + n)] else str_nat (n div 10) @ [char_of (48 + n mod 10)])"

definition str_int :: "int \<Rightarrow> string" where
  "str_int i = (if i < 0 then CHR ''-'' # str_nat (nat (- i)) else str_nat (nat i))"

text \<open>\<open>s.startswith(p)\<close>\<close>

definition startswith :: "string \<Rightarrow> string \<Rightarrow> bool" where
  "startswith s p = prefix p s"

section \<open>The content store: \<open>fetch_publication_content\<close>\<close>

text \<open>
  Lines 185 and 187 call \<open>self.get_title_from_url\<close> and
  \<open>self.generate_synthetic_data\<close>. The class \<open>PublicationProcessor\<close> defines neither,
  it has no base class, and no file of the repository adds them, so looking either name
  up on \<open>self\<close> raises \<open>AttributeError\<close>.
\<close>

definition get_title_from_url :: "string \<Rightarrow> exn + string" where
  "get_title_from_url url =
     Inl (AttributeError ''PublicationProcessor object has no attribute get_title_from_url'')"

definition generate_synthetic_data :: "string \<Rightarrow> exn + content" where
  "generate_synthetic_data title =
     Inl (AttributeError ''PublicationProcessor object has no attribute generate_synthetic_data'')"

text \<open>Lines 82-85: a link to the old PMC address is rewritten.\<close>

definition rewrite_url :: "string \<Rightarrow> string" where
  "rewrite_url url =
     (if str_contains url ''www.ncbi.nlm.nih.gov/pmc/articles/'' then
        (let pmc_id = last_component url
         in if pmc_id \<noteq> [] then ''https://pmc.ncbi.nlm.nih.gov/articles/'' @ pmc_id @ ''/'' else url)
      else url)"

text \<open>
  The method returns its result, or the exception that leaves it, and the cache directory
  as it has become. A cached file is returned as it is (lines 72-76, outside the
  \<open>try\<close>). Otherwise the page is requested; \<open>http_get\<close> stands for lines 110-155
  and its \<open>Inl\<close> for an exception raised by the request, which control passes to the
  handler of line 182.
\<close>

definition fetch_publication_content ::
  "env \<Rightarrow> cache_dir \<Rightarrow> string \<Rightarrow> bool \<Rightarrow> (exn + content) \<times> cache_dir" where
  "fetch_publication_content e d url cache =
     (let cache_file = str_int (py_hash e url) @ ''.json'' in
      if cache \<and> map_of d cache_file \<noteq> None then
        (case map_of d cache_file of
           Some (Json data) \<Rightarrow> (Inr data, d)
         | _ \<Rightarrow> (Inl JSONDecodeError, d))
      else
        (let url' = rewrite_url url in
         case http_get e url' of
           Inr p \<Rightarrow>
             (let d1 = AList.update (str_int (py_hash e url') @ ''_raw.html'') (RawHtml (html p)) d;
                  publication_data =
                    \<lparr>abstract = abstract_text p, results = results_text p,
                     conclusion = conclusion_text p, full_text = article_text p,
                     source = ''web'', status = ''success'', error = None,
                     timestamp = time_now e\<rparr>;
                  d2 = (if cache then AList.update cache_file (Json publication_data) d1 else d1)
              in (Inr publication_data, d2))
         | Inl x \<Rightarrow>
             (case get_title_from_url url' of
                Inl a \<Rightarrow> (Inl a, d)
              | Inr title \<Rightarrow>
                  if title \<noteq> [] then
                    (case generate_synthetic_data title of
                       Inl a \<Rightarrow> (Inl a, d)
                     | Inr synthetic \<Rightarrow>
                         (let publication_data =
                                synthetic\<lparr>error := Some (exn_str x), status := ''error'',
                                          timestamp := time_now e\<rparr>;
                              d1 = (if cache then AList.update cache_file (Json publication_data) d
                                    else d)
                          in (Inr publication_data, d1)))
                  else
                    (Inr \<lparr>abstract = [], results = [], conclusion = [], full_text = [],
                          source = ''error'', status = ''error'', error = Some (exn_str x),
                          timestamp = time_now e\<rparr>, d))))"

section \<open>The theme extractor\<close>

text \<open>\<open>extract_keywords\<close>, lines 210-228.\<close>

definition extract_keywords :: "env \<Rightarrow> string \<Rightarrow> int \<Rightarrow> (string \<times> int) list" where
  "extract_keywords e text n =
     (if text = [] then []
      else
        (let words = (case word_tokenize e (lower text) of
                        Some ws \<Rightarrow> ws
                      | None \<Rightarrow> findall_words (lower text));
             filtered_words = filter (\<lambda>word. isalpha word \<and> word \<notin> set (stop_words e)) words
         in most_common n (counter filtered_words)))"

text \<open>Lines 622-636: the tokens of the weighted text of a publication.\<close>

definition combined_text :: "content \<Rightarrow> string" where
  "combined_text c =
     abstract c @ '' '' @ abstract c @ '' '' @ conclusion c @ '' '' @ conclusion c @ '' '' @ results c"

definition simple_filtered_words :: "env \<Rightarrow> string \<Rightarrow> string list" where
  "simple_filtered_words e text =
     filter (\<lambda>word. word \<notin> set (stop_words e)) (findall_alpha 4 (lower text))"

definition filtered_words_of :: "env \<Rightarrow> content \<Rightarrow> string list" where
  "filtered_words_of e c =
     (case word_tokenize e (lower (combined_text c)) of
        Some words \<Rightarrow>
          filter (\<lambda>word. isalpha word \<and> 3 < length word \<and> word \<notin> set (stop_words e)) words
      | None \<Rightarrow> simple_filtered_words e (combined_text c))"

text \<open>
  Lines 647-662: the comparison documents, from the abstracts of the sampled rows. A
  fetch that raises is skipped.
\<close>

fun peer_documents ::
  "env \<Rightarrow> string \<Rightarrow> row list \<Rightarrow> cache_dir \<Rightarrow> string list \<Rightarrow> string list \<times> cache_dir" where
  "peer_documents e publication_title [] d documents = (documents, d)"
| "peer_documents e publication_title ((title, link) # rows) d documents =
     (if title \<noteq> publication_title then
        (case fetch_publication_content e d link True of
           (Inl x, d1) \<Rightarrow> peer_documents e publication_title rows d1 documents
         | (Inr other_pub_content, d1) \<Rightarrow>
             (let other_text = abstract other_pub_content in
              if other_text \<noteq> [] then
                (let other_filtered = simple_filtered_words e other_text in
                 if 0 < length other_filtered
                 then peer_documents e publication_title rows d1
                        (documents @ [join_blank other_filtered])
                 else peer_documents e publication_title rows d1 documents)
              else peer_documents e publication_title rows d1 documents))
      else peer_documents e publication_title rows d documents)"

text \<open>The themes by frequency: \<open>[word for word, _ in word_freq.most_common(n)]\<close>.\<close>

definition frequency_themes :: "string list \<Rightarrow> int \<Rightarrow> string list" where
  "frequency_themes ws n = map fst (most_common n (counter ws))"

text \<open>
  Lines 639-692: the themes from the text. With more than 10 tokens and a comparison
  document, the terms of \<open>top_keywords\<close> that score above 0.1 are kept, \<open>num_themes\<close>
  of them at most; an exception of the TF-IDF computation falls back to the frequencies.
\<close>

definition text_themes ::
  "env \<Rightarrow> cache_dir \<Rightarrow> string \<Rightarrow> content \<Rightarrow> int \<Rightarrow> string list \<times> cache_dir" where
  "text_themes e d publication_title c num_themes =
     (let filtered_words = filtered_words_of e c in
      if 10 < length filtered_words then
        (let sample_count = min 5 (int (length (publications_df e)) - 1);
             (documents, d1) =
               (if 0 < sample_count
                then peer_documents e publication_title
                       (df_sample e publication_title (nat sample_count)) d
                       [join_blank filtered_words]
                else ([join_blank filtered_words], d))
         in if 1 < length documents then
              (case tfidf_top_keywords e documents num_themes of
                 Inr top_keywords \<Rightarrow>
                   (map fst (slice_to num_themes (filter (\<lambda>kw. 1 / 10 < snd kw) top_keywords)), d1)
               | Inl x \<Rightarrow> (frequency_themes filtered_words num_themes, d1))
            else (frequency_themes filtered_words num_themes, d1))
      else
        (frequency_themes filtered_words
           (min (int (length (counter filtered_words))) num_themes), d))"

text \<open>Lines 696-697: the tokens of the title.\<close>

definition title_words_of :: "env \<Rightarrow> string \<Rightarrow> string list" where
  "title_words_of e publication_title =
     filter (\<lambda>w. w \<notin> set (stop_words e)) (map lower (findall_alpha 3 publication_title))"

text \<open>
  \<open>identify_publication_themes\<close>, lines 610-706. \<open>title_words\<close> is assigned only
  under the test of line 695, and line 703 reads it when \<open>themes\<close> is empty.
\<close>

definition identify_publication_themes ::
  "env \<Rightarrow> cache_dir \<Rightarrow> string \<Rightarrow> content \<Rightarrow> int \<Rightarrow> (exn + string list) \<times> cache_dir" where
  "identify_publication_themes e d publication_title c num_themes =
     (case text_themes e d publication_title c num_themes of
        (themes, d1) \<Rightarrow>
          if int (length themes) < num_themes then
            (let title_words = title_words_of e publication_title;
                 additional_themes =
                   frequency_themes title_words (num_themes - int (length themes));
                 themes1 = themes @ additional_themes;
                 themes2 = (if themes1 = [] \<and> title_words \<noteq> [] then [hd title_words] else themes1)
             in (Inr (slice_to num_themes themes2), d1))
          else if themes = [] then (Inl (UnboundLocalError ''title_words''), d1)
          else (Inr (slice_to num_themes themes), d1))"

section \<open>The graph builder: \<open>build_knowledge_graph\<close>\<close>

text \<open>Lines 270-273 and 275-278: the keyword nodes and edges of one section.\<close>

fun add_keyword_edges :: "graph \<Rightarrow> string \<Rightarrow> string \<Rightarrow> (string \<times> int) list \<Rightarrow> graph" where
  "add_keyword_edges g title sec [] = g"
| "add_keyword_edges g title sec ((keyword, count) # ks) =
     (if 3 < length keyword then
        add_keyword_edges
          (add_edge (add_node g keyword (\<lambda>a. a\<lparr>n_type := Some ''keyword''\<rparr>))
             title keyword \<lparr>e_weight = count, e_section = sec\<rparr>)
          title sec ks
      else add_keyword_edges g title sec ks)"

text \<open>Lines 263-278: the node and the edges of one publication with its document.\<close>

definition add_publication :: "env \<Rightarrow> graph \<Rightarrow> string \<Rightarrow> string \<Rightarrow> string list \<Rightarrow> content \<Rightarrow> graph" where
  "add_publication e g title url publication_themes c =
     (let g1 = add_node g title
                 (\<lambda>a. a\<lparr>n_type := Some ''publication'', n_url := Some url,
                         n_themes := Some publication_themes\<rparr>);
          abstract_keywords = extract_keywords e (abstract c) 10;
          conclusion_keywords = extract_keywords e (conclusion c) 10;
          g2 = add_keyword_edges g1 title ''abstract'' abstract_keywords
      in add_keyword_edges g2 title ''conclusion'' conclusion_keywords)"

text \<open>Lines 252-278: the loop over the rows; an exception leaves it.\<close>

fun process_rows :: "env \<Rightarrow> row list \<Rightarrow> graph \<Rightarrow> cache_dir \<Rightarrow> exn + graph \<times> cache_dir" where
  "process_rows e [] g d = Inr (g, d)"
| "process_rows e ((title, url) # rows) g d =
     (case fetch_publication_content e d url True of
        (Inl x, d1) \<Rightarrow> Inl x
      | (Inr c, d1) \<Rightarrow>
          (case identify_publication_themes e d1 title c 5 of
             (Inl x, d2) \<Rightarrow> Inl x
           | (Inr publication_themes, d2) \<Rightarrow>
               process_rows e rows (add_publication e g title url publication_themes c) d2))"

text \<open>
  The method, with \<open>self.knowledge_graph\<close> as \<open>g\<close>. A persisted graph is loaded and
  returned when \<open>use_cache\<close> is set and the file can be read as one (lines 240-247);
  otherwise the rows are processed into \<open>g\<close> and the graph is persisted.
\<close>

definition load_cached :: "cache_dir \<Rightarrow> bool \<Rightarrow> graph option" where
  "load_cached d use_cache =
     (if use_cache then
        (case map_of d ''knowledge_graph.json'' of
           Some (GraphJson data) \<Rightarrow> Some (node_link_graph data)
         | _ \<Rightarrow> None)
      else None)"

definition build_knowledge_graph ::
  "env \<Rightarrow> graph \<Rightarrow> cache_dir \<Rightarrow> int option \<Rightarrow> bool \<Rightarrow> exn + graph \<times> cache_dir" where
  "build_knowledge_graph e g d num_publications use_cache =
     (let n = (case num_publications of
                 None \<Rightarrow> int (length (publications_df e))
               | Some k \<Rightarrow> min k (int (length (publications_df e))))
      in case load_cached d use_cache of
           Some cached \<Rightarrow> Inr (cached, d)
         | None \<Rightarrow>
             (case process_rows e (slice_to n (publications_df e)) g d of
                Inl x \<Rightarrow> Inl x
              | Inr (g1, d1) \<Rightarrow>
                  Inr (g1, AList.update ''knowledge_graph.json'' (GraphJson (node_link_data g1)) d1)))"

text \<open>The rows that a build processes: \<open>publications_df.head(num_publications)\<close>.\<close>

definition processed_rows :: "env \<Rightarrow> int option \<Rightarrow> row list" where
  "processed_rows e num_publications =
     slice_to (case num_publications of
                 None \<Rightarrow> int (length (publications_df e))
               | Some k \<Rightarrow> min k (int (length (publications_df e))))
       (publications_df e)"

subsection \<open>What the specification says of a built graph\<close>

text \<open>The edges as pairs of ends, each edge from both of its ends.\<close>

definition edges_of :: "graph \<Rightarrow> (string \<times> string) list" where
  "edges_of g = concat (map (\<lambda>(u, nb). map (\<lambda>(v, d). (u, v)) nb) (g_adj g))"

text \<open>Every edge joins a node of type \<open>publication\<close> and a node of type \<open>keyword\<close>.\<close>

definition bipartite :: "graph \<Rightarrow> bool" where
  "bipartite g =
     (\<forall>(u, v) \<in> set (edges_of g).
        (get_type g u = Some ''publication'' \<and> get_type g v = Some ''keyword'') \<or>
        (get_type g u = Some ''keyword'' \<and> get_type g v = Some ''publication''))"

text \<open>Every end of an edge that has the type \<open>keyword\<close> is longer than 3 characters.\<close>

definition keyword_ends_long :: "graph \<Rightarrow> bool" where
  "keyword_ends_long g =
     (\<forall>(u, v) \<in> set (edges_of g).
        (get_type g u = Some ''keyword'' \<longrightarrow> 3 < length u) \<and>
        (get_type g v = Some ''keyword'' \<longrightarrow> 3 < length v))"

text \<open>
  The terms for which lines 270-278 make a keyword node, for one document and for the
  rows of a run of the loop.
\<close>

definition row_keywords :: "env \<Rightarrow> content \<Rightarrow> string list" where
  "row_keywords e c =
     filter (\<lambda>k. 3 < length k)
       (map fst (extract_keywords e (abstract c) 10 @ extract_keywords e (conclusion c) 10))"

fun inserted_keywords :: "env \<Rightarrow> row list \<Rightarrow> cache_dir \<Rightarrow> string list" where
  "inserted_keywords e [] d = []"
| "inserted_keywords e ((title, url) # rows) d =
     (case fetch_publication_content e d url True of
        (Inl x, d1) \<Rightarrow> []
      | (Inr c, d1) \<Rightarrow>
          (case identify_publication_themes e d1 title c 5 of
             (Inl x, d2) \<Rightarrow> []
           | (Inr publication_themes, d2) \<Rightarrow> row_keywords e c @ inserted_keywords e rows d2))"

section \<open>The similarity engine: \<open>get_similar_publications\<close>\<close>

text \<open>Lines 298-299: the neighbours of the title that are keywords.\<close>

fun keywords_among :: "graph \<Rightarrow> string list \<Rightarrow> exn + string list" where
  "keywords_among g [] = Inr []"
| "keywords_among g (node # ns) =
     (case node_type g node of
        Inl x \<Rightarrow> Inl x
      | Inr t \<Rightarrow>
          (case keywords_among g ns of
             Inl x \<Rightarrow> Inl x
           | Inr r \<Rightarrow> Inr (if t = ''keyword'' then node # r else r)))"

text \<open>Lines 304-306: the loop over the neighbours of one keyword.\<close>

fun tally_neighbors :: "graph \<Rightarrow> string \<Rightarrow> string list \<Rightarrow> (string \<times> int) list \<Rightarrow> exn + (string \<times> int) list" where
  "tally_neighbors g title [] similar_pubs = Inr similar_pubs"
| "tally_neighbors g title (node # ns) similar_pubs =
     (if node \<noteq> title then
        (case node_type g node of
           Inl x \<Rightarrow> Inl x
         | Inr t \<Rightarrow>
             tally_neighbors g title ns
               (if t = ''publication'' then bump node similar_pubs else similar_pubs))
      else tally_neighbors g title ns similar_pubs)"

text \<open>Lines 303-306: the loop over the keywords.\<close>

fun tally_keywords :: "graph \<Rightarrow> string \<Rightarrow> string list \<Rightarrow> (string \<times> int) list \<Rightarrow> exn + (string \<times> int) list" where
  "tally_keywords g title [] similar_pubs = Inr similar_pubs"
| "tally_keywords g title (keyword # ks) similar_pubs =
     (case neighbors g keyword of
        Inl x \<Rightarrow> Inl x
      | Inr ns \<Rightarrow>
          (case tally_neighbors g title ns similar_pubs of
             Inl x \<Rightarrow> Inl x
           | Inr sp \<Rightarrow> tally_keywords g title ks sp))"

definition get_similar_publications :: "graph \<Rightarrow> string \<Rightarrow> int \<Rightarrow> exn + (string \<times> int) list" where
  "get_similar_publications g title n =
     (if \<not> has_node g title then Inr []
      else
        (case neighbors g title of
           Inl x \<Rightarrow> Inl x
         | Inr ns \<Rightarrow>
             (case keywords_among g ns of
                Inl x \<Rightarrow> Inl x
              | Inr keywords \<Rightarrow>
                  (case tally_keywords g title keywords [] of
                     Inl x \<Rightarrow> Inl x
                   | Inr similar_pubs \<Rightarrow> Inr (slice_to n (sorted_desc snd similar_pubs))))))"

section \<open>The search engine: \<open>_text_matches\<close>\<close>

text \<open>
  The NLTK collaborators are parameters: \<open>stem\<close> is \<open>PorterStemmer().stem\<close>, and
  \<open>tokenize\<close> is \<open>word_tokenize\<close>, with \<open>None\<close> when it raises (its data is not
  installed), which sends the source to its fallback.
\<close>

text \<open>Lines 854-860: the stems of the section's tokens.\<close>

definition text_stems :: "(string \<Rightarrow> string) \<Rightarrow> (string \<Rightarrow> string list option) \<Rightarrow> string \<Rightarrow> string list" where
  "text_stems stem tokenize text =
     (case tokenize text of
        Some text_tokens \<Rightarrow> map (\<lambda>word. stem (lower word)) text_tokens
      | None \<Rightarrow> map stem (split (lower text)))"

text \<open>Lines 878-898: the literal word and its four variations, for a word longer than 3.\<close>

definition variation_found :: "string \<Rightarrow> string \<Rightarrow> bool" where
  "variation_found text word =
     (let found = (re_search_word word text \<noteq> None);
          found = (found \<or> re_search_word (word @ ''s'') text \<noteq> None);
          found = (found \<or> (endswith word ''s'' \<and> re_search_word (butlast word) text \<noteq> None));
          found = (found \<or> (endswith word ''es'' \<and>
                     re_search_word (take (length word - 2) word) text \<noteq> None));
          found = (found \<or> (endswith word ''ies'' \<and>
                     re_search_word (take (length word - 3) word @ ''y'') text \<noteq> None))
      in found)"

text \<open>Lines 864-903: the loop over the query words, with its early \<open>return False\<close>.\<close>

fun match_words :: "(string \<Rightarrow> string) \<Rightarrow> string list \<Rightarrow> string \<Rightarrow> string list \<Rightarrow> bool" where
  "match_words stem stems text [] = True"
| "match_words stem stems text (word # ws) =
     (if stem word \<in> set stems then match_words stem stems text ws
      else if length word \<le> 3 then
        (if re_search_word word text = None then False else match_words stem stems text ws)
      else
        (if \<not> variation_found text word then False else match_words stem stems text ws))"

definition text_matches ::
  "(string \<Rightarrow> string) \<Rightarrow> (string \<Rightarrow> string list option) \<Rightarrow> string \<Rightarrow> string \<Rightarrow> bool \<Rightarrow> bool" where
  "text_matches stem tokenize text query exact_match =
     (if text = [] then False
      else if exact_match then str_contains text query
      else match_words stem (text_stems stem tokenize text) text (split (lower query)))"

text \<open>
  What the specification says of one query word in fuzzy mode: its stem is among the
  section's stems, or the literal word occurs as a whole word, or, for a word longer
  than 3 characters, one of the four variations occurs as a whole word.
\<close>

definition whole_word :: "string \<Rightarrow> string \<Rightarrow> bool" where
  "whole_word w text = (re_search_word w text \<noteq> None)"

definition word_matches_spec ::
  "(string \<Rightarrow> string) \<Rightarrow> (string \<Rightarrow> string list option) \<Rightarrow> string \<Rightarrow> string \<Rightarrow> bool" where
  "word_matches_spec stem tokenize text w =
     (stem w \<in> set (text_stems stem tokenize text) \<or> whole_word w text \<or>
      (3 < length w \<and>
        (whole_word (w @ ''s'') text \<or>
         (endswith w ''s'' \<and> whole_word (butlast w) text) \<or>
         (endswith w ''es'' \<and> whole_word (take (length w - 2) w) text) \<or>
         (endswith w ''ies'' \<and> whole_word (take (length w - 3) w @ ''y'') text))))"

section \<open>The search engine: snippets\<close>

text \<open>\<open>text.find(query, start)\<close>, with \<open>None\<close> for \<open>-1\<close>.\<close>

fun str_find :: "string \<Rightarrow> string \<Rightarrow> nat option" where
  "str_find [] q = (if q = [] then Some 0 else None)"
| "str_find (c # cs) q = (if prefix q (c # cs) then Some 0 else map_option Suc (str_find cs q))"

definition find_from :: "string \<Rightarrow> string \<Rightarrow> nat \<Rightarrow> nat option" where
  "find_from text q start =
     (if length text < start then None
      else map_option (\<lambda>i. start + i) (str_find (drop start text) q))"

text \<open>
  Lines 922-930 and 973-981: the window around a match at \<open>[start_idx, end_idx)\<close>.
  \<open>max(0, start_idx - context_chars)\<close> is the subtraction of \<^typ>\<open>nat\<close>.
\<close>

definition make_snippet :: "string \<Rightarrow> nat \<Rightarrow> nat \<Rightarrow> nat \<Rightarrow> string" where
  "make_snippet text start_idx end_idx context_chars =
     (let snippet_start = start_idx - context_chars;
          snippet_end = min (length text) (end_idx + context_chars);
          snippet = take (snippet_end - snippet_start) (drop snippet_start text);
          snippet = (if 0 < snippet_start then ''...'' @ snippet else snippet);
          snippet = (if snippet_end < length text then snippet @ ''...'' else snippet)
      in snippet)"

text \<open>Lines 915-933: the loop of exact mode.\<close>

function exact_loop :: "string \<Rightarrow> string \<Rightarrow> nat \<Rightarrow> nat \<Rightarrow> nat \<Rightarrow> string list \<Rightarrow> string list" where
  "exact_loop text query context_chars max_snippets start_idx snippets =
     (if length snippets < max_snippets then
        (case find_from text query start_idx of
           None \<Rightarrow> snippets
         | Some idx \<Rightarrow>
             exact_loop text query context_chars max_snippets (idx + length query)
               (snippets @ [make_snippet text idx (idx + length query) context_chars]))
      else snippets)"
  by pat_completeness auto
termination
  by (relation "measure (\<lambda>(text, query, cc, m, start, sn). m - length sn)") auto

text \<open>Lines 946-956: the word and, for a word longer than 3, its variations.\<close>

definition variations :: "string \<Rightarrow> string list" where
  "variations word =
     filter (\<lambda>v. v \<noteq> [])
       ([word] @
        (if 3 < length word then
           [word @ ''s'',
            if endswith word ''s'' then butlast word else [],
            if endswith word ''es'' then take (length word - 2) word else [],
            if endswith word ''ies'' then take (length word - 3) word @ ''y'' else []]
         else []))"

text \<open>Lines 959-984: the first variation of at least 3 characters found as a whole word.\<close>

fun first_variation_match :: "string \<Rightarrow> string list \<Rightarrow> (nat \<times> nat) option" where
  "first_variation_match text [] = None"
| "first_variation_match text (variation # vs) =
     (if variation = [] \<or> length variation < 3 then first_variation_match text vs
      else case re_search_word variation text of
             Some m \<Rightarrow> Some m
           | None \<Rightarrow> first_variation_match text vs)"

text \<open>Lines 939-984: the loop over the query words.\<close>

fun fuzzy_loop :: "string \<Rightarrow> nat \<Rightarrow> nat \<Rightarrow> string list \<Rightarrow> string list \<Rightarrow> string list" where
  "fuzzy_loop text context_chars max_snippets snippets [] = snippets"
| "fuzzy_loop text context_chars max_snippets snippets (word # ws) =
     (if max_snippets \<le> length snippets then snippets
      else case first_variation_match text (variations word) of
             Some (start_idx, end_idx) \<Rightarrow>
               fuzzy_loop text context_chars max_snippets
                 (snippets @ [make_snippet text start_idx end_idx context_chars]) ws
           | None \<Rightarrow> fuzzy_loop text context_chars max_snippets snippets ws)"

definition extract_context_snippets :: "string \<Rightarrow> string \<Rightarrow> bool \<Rightarrow> nat \<Rightarrow> nat \<Rightarrow> string list" where
  "extract_context_snippets text query exact_match context_chars max_snippets =
     (if exact_match then exact_loop text query context_chars max_snippets 0 []
      else fuzzy_loop text context_chars max_snippets [] (split (lower query)))"

section \<open>The search engine: \<open>search_publications_full_text\<close>\<close>

record snippet =
  s_text :: string
  s_section :: string

record search_result =
  r_title :: string
  r_url :: string
  matching_sections :: "string list"
  snippets :: "snippet list"

text \<open>Lines 727-737: the table from the printed hash of a link to its row.\<close>

definition add_row_hash :: "env \<Rightarrow> row \<Rightarrow> (string \<rightharpoonup> row) \<Rightarrow> (string \<rightharpoonup> row)" where
  "add_row_hash e r m =
     (case r of (title, url) \<Rightarrow>
        if url \<noteq> [] then
          (let url_hash = str_int (py_hash e url);
               m1 = m(url_hash \<mapsto> (title, url))
           in if startswith url_hash ''-'' then m1(tl url_hash \<mapsto> (title, url)) else m1)
        else m)"

definition url_hash_map_of :: "env \<Rightarrow> (string \<rightharpoonup> row)" where
  "url_hash_map_of e = fold (add_row_hash e) (publications_df e) Map.empty"

text \<open>Lines 740-742: the files of the cache directory that are searched.\<close>

definition cache_files :: "cache_dir \<Rightarrow> (string \<times> cache_file) list" where
  "cache_files d =
     filter (\<lambda>(f, _). endswith f ''.json'' \<and> f \<noteq> ''knowledge_graph.json'' \<and>
                       \<not> endswith f ''_raw.html'') d"

text \<open>
  Lines 756-775: the publication of a cache file, and the table, which remembers a
  resolution by title.
\<close>

definition lookup_publication ::
  "env \<Rightarrow> (string \<rightharpoonup> row) \<Rightarrow> string \<Rightarrow> content \<Rightarrow> row option \<times> (string \<rightharpoonup> row)" where
  "lookup_publication e m file_hash c =
     (case m file_hash of
        Some publication_data \<Rightarrow> (Some publication_data, m)
      | None \<Rightarrow>
          (case (if startswith file_hash ''-'' then m (tl file_hash) else None) of
             Some publication_data \<Rightarrow> (Some publication_data, m)
           | None \<Rightarrow>
               (case find (\<lambda>(db_title, link). lower db_title \<noteq> [] \<and>
                             str_contains (lower (full_text c)) (lower db_title))
                       (publications_df e) of
                  Some r \<Rightarrow> (Some r, m(file_hash \<mapsto> r))
                | None \<Rightarrow> (None, m))))"

text \<open>
  Lines 786-812: the sections that match, each with its lower-cased text; the list of
  pairs is \<open>zip(search_texts, matching_sections)\<close>.
\<close>

definition try_section ::
  "env \<Rightarrow> string \<Rightarrow> bool \<Rightarrow> string \<Rightarrow> string \<Rightarrow> (string \<times> string) list" where
  "try_section e query exact_match name text =
     (if text_matches (porter_stem e) (word_tokenize e) (lower text) query exact_match
      then [(lower text, name)] else [])"

definition matched_sections ::
  "env \<Rightarrow> content \<Rightarrow> string \<Rightarrow> string option \<Rightarrow> bool \<Rightarrow> (string \<times> string) list" where
  "matched_sections e c query section exact_match =
     (let m1 = (if section = Some ''abstract'' \<or> section = None
                then try_section e query exact_match ''abstract'' (abstract c) else []);
          m2 = m1 @ (if section = Some ''results'' \<or> section = None
                then try_section e query exact_match ''results'' (results c) else []);
          m3 = m2 @ (if section = Some ''conclusion'' \<or> section = None
                then try_section e query exact_match ''conclusion'' (conclusion c) else [])
      in if section = None \<and> m3 = []
         then try_section e query exact_match ''full text'' (full_text c) else m3)"

text \<open>Lines 815-833: the snippets of the matching sections and the result, if it is new.\<close>

definition context_snippets_of :: "string \<Rightarrow> bool \<Rightarrow> (string \<times> string) list \<Rightarrow> snippet list" where
  "context_snippets_of query exact_match matched =
     concat (map (\<lambda>(text, section_name).
                    map (\<lambda>sn. \<lparr>s_text = sn, s_section = section_name\<rparr>)
                      (extract_context_snippets text query exact_match 100 2))
                 matched)"

definition search_file ::
  "env \<Rightarrow> string \<Rightarrow> string option \<Rightarrow> bool \<Rightarrow> string \<times> cache_file \<Rightarrow>
   (string \<rightharpoonup> row) \<times> search_result list \<Rightarrow> (string \<rightharpoonup> row) \<times> search_result list" where
  "search_file e query section exact_match f st =
     (case st of (m, res) \<Rightarrow>
      case f of (filename, file) \<Rightarrow>
      (case file of
         Json c \<Rightarrow>
           (let file_hash = takeWhile (\<lambda>ch. ch \<noteq> CHR ''.'') filename in
            case lookup_publication e m file_hash c of
              (None, m') \<Rightarrow> (m', res)
            | (Some (title, url), m') \<Rightarrow>
                (let matched = matched_sections e c query section exact_match in
                 if matched \<noteq> [] then
                   (let context_snippets = context_snippets_of query exact_match matched in
                    if \<not> list_ex (\<lambda>r. r_title r = title) res then
                      (m', res @ [\<lparr>r_title = title, r_url = url,
                                    matching_sections = map snd matched,
                                    snippets = take 3 context_snippets\<rparr>])
                    else (m', res))
                 else (m', res)))
       | _ \<Rightarrow> (m, res)))"

text \<open>
  The method: the query is lower-cased at line 721; the files are visited in the order
  in which \<open>os.listdir\<close> lists the directory.
\<close>

definition search_publications_full_text ::
  "env \<Rightarrow> cache_dir \<Rightarrow> string \<Rightarrow> string option \<Rightarrow> bool \<Rightarrow> search_result list" where
  "search_publications_full_text e d query section exact_match =
     snd (fold (search_file e (lower query) section exact_match) (cache_files d)
            (url_hash_map_of e, []))"

section \<open>Properties of the graph operations\<close>

lemma adj_list_update:
  "adj_list (AList.update k nb a) w = (if w = k then nb else adj_list a w)"
  by (simp add: adj_list_def update_conv')

lemma adj_list_in_set:
  "adj_list a u \<noteq> [] \<Longrightarrow> (u, adj_list a u) \<in> set a"
  by (auto simp: adj_list_def split: option.splits dest: map_of_SomeD)

lemma adj_list_keys: "adj_list a u \<noteq> [] \<Longrightarrow> u \<in> fst ` set a"
  by (drule adj_list_in_set) (rule image_eqI [where x = "(u, adj_list a u)"], simp_all)

lemma set_edge_lookup:
  "map_of (adj_list (set_edge a u v d) w) x =
     (if (w = u \<and> x = v) \<or> (w = v \<and> x = u) then Some d else map_of (adj_list a w) x)"
  by (simp add: set_edge_def Let_def adj_list_update update_conv')

lemma set_edge_keys: "fst ` set (set_edge a u v d) = {u, v} \<union> fst ` set a"
  by (auto simp: set_edge_def Let_def dom_update)

lemma set_edge_distinct: "distinct (map fst a) \<Longrightarrow> distinct (map fst (set_edge a u v d))"
  by (simp add: set_edge_def Let_def distinct_update)

lemma set_edge_nb_distinct:
  "distinct (map fst (adj_list a w)) \<Longrightarrow> distinct (map fst (adj_list a u)) \<Longrightarrow>
   distinct (map fst (adj_list a v)) \<Longrightarrow> distinct (map fst (adj_list (set_edge a u v d) w))"
  by (simp add: set_edge_def Let_def adj_list_update distinct_update)

lemma wf_mapD:
  assumes "wf_map g"
  shows "distinct (map fst (g_node g))" and "distinct (map fst (g_adj g))"
    and "fst ` set (g_adj g) = fst ` set (g_node g)"
    and "\<And>u. distinct (map fst (adj_list (g_adj g) u))"
    and "\<And>u v d. edge_attr g u v = Some d \<Longrightarrow> edge_attr g v u = Some d"
  using assms unfolding wf_map_def by blast+

lemma wf_mapI:
  assumes "distinct (map fst (g_node g))" and "distinct (map fst (g_adj g))"
    and "fst ` set (g_adj g) = fst ` set (g_node g)"
    and "\<And>u. distinct (map fst (adj_list (g_adj g) u))"
    and "\<And>u v d. edge_attr g u v = Some d \<Longrightarrow> edge_attr g v u = Some d"
  shows "wf_map g"
  using assms unfolding wf_map_def by blast

lemma wf_graph_map: "wf_graph g = wf_map g"
proof
  assume w: "wf_graph g"
  then have dn: "distinct (map fst (g_node g))" and da: "distinct (map fst (g_adj g))"
    and ks: "fst ` set (g_adj g) = fst ` set (g_node g)"
    and en0: "\<forall>x \<in> set (g_adj g). case x of (u, nb) \<Rightarrow>
               distinct (map fst nb) \<and> (\<forall>(v, d) \<in> set nb. edge_attr g v u = Some d)"
    unfolding wf_graph_def by simp_all
  have en: "distinct (map fst nb) \<and> (\<forall>(v, d) \<in> set nb. edge_attr g v u = Some d)"
    if "(u, nb) \<in> set (g_adj g)" for u nb
    using en0 that by blast
  have "distinct (map fst (adj_list (g_adj g) u))" for u
  proof (cases "adj_list (g_adj g) u = []")
    case True then show ?thesis by simp
  next
    case False
    from en [OF adj_list_in_set [OF False]] show ?thesis by simp
  qed
  moreover have "edge_attr g v u = Some d" if "edge_attr g u v = Some d" for u v d
  proof -
    from that have ne: "adj_list (g_adj g) u \<noteq> []" by (auto simp: edge_attr_def)
    from that have "(v, d) \<in> set (adj_list (g_adj g) u)"
      by (auto simp: edge_attr_def dest: map_of_SomeD)
    with en [OF adj_list_in_set [OF ne]] show ?thesis by auto
  qed
  ultimately show "wf_map g" using dn da ks by (intro wf_mapI)
next
  assume w: "wf_map g"
  note dn = wf_mapD(1) [OF w] and da = wf_mapD(2) [OF w] and ks = wf_mapD(3) [OF w]
    and dl = wf_mapD(4) [OF w] and sy = wf_mapD(5) [OF w]
  have "distinct (map fst nb) \<and> (\<forall>(v, d) \<in> set nb. edge_attr g v u = Some d)"
    if "(u, nb) \<in> set (g_adj g)" for u nb
  proof -
    from that da have m: "map_of (g_adj g) u = Some nb" by simp
    then have al: "adj_list (g_adj g) u = nb" by (simp add: adj_list_def)
    with dl [of u] have d: "distinct (map fst nb)" by simp
    have "edge_attr g v u = Some e" if "(v, e) \<in> set nb" for v e
    proof -
      from that d have "map_of nb v = Some e" by simp
      with al have "edge_attr g u v = Some e" by (simp add: edge_attr_def)
      then show ?thesis by (rule sy)
    qed
    with d show ?thesis by auto
  qed
  then have "\<forall>x \<in> set (g_adj g). case x of (u, nb) \<Rightarrow>
      distinct (map fst nb) \<and> (\<forall>(v, d) \<in> set nb. edge_attr g v u = Some d)"
    by blast
  with dn da ks show "wf_graph g" unfolding wf_graph_def by simp
qed

lemma wf_empty: "wf_graph empty_graph"
  by (simp add: wf_graph_def empty_graph_def)

lemma has_node_keys: "has_node g n = (n \<in> fst ` set (g_node g))"
  by (simp add: has_node_def map_of_eq_None_iff)

lemma add_node_nodes:
  "map_of (g_node (add_node g n upd)) m =
     (if m = n then Some (upd (case map_of (g_node g) n of None \<Rightarrow> no_attrs | Some a \<Rightarrow> a))
      else map_of (g_node g) m)"
  by (simp add: add_node_def update_conv' split: option.splits)

lemma add_node_node_keys:
  "fst ` set (g_node (add_node g n upd)) = insert n (fst ` set (g_node g))"
  by (simp add: add_node_def dom_update split: option.splits)

lemma add_node_adj_list:
  "wf_map g \<Longrightarrow> adj_list (g_adj (add_node g n upd)) u = adj_list (g_adj g) u"
proof -
  assume w: "wf_map g"
  show ?thesis
  proof (cases "map_of (g_node g) n")
    case (Some a)
    then show ?thesis by (simp add: add_node_def)
  next
    case None
    then have "n \<notin> fst ` set (g_node g)" by (simp add: map_of_eq_None_iff)
    with wf_mapD(3) [OF w] have "n \<notin> fst ` set (g_adj g)" by simp
    then have "adj_list (g_adj g) n = []" using adj_list_keys by blast
    with None show ?thesis by (simp add: add_node_def adj_list_update)
  qed
qed

lemma add_node_edge_attr:
  "wf_map g \<Longrightarrow> edge_attr (add_node g n upd) u v = edge_attr g u v"
  by (simp add: edge_attr_def add_node_adj_list)


lemma add_node_adj_keys:
  "fst ` set (g_adj g) = fst ` set (g_node g) \<Longrightarrow>
   fst ` set (g_adj (add_node g n upd)) = insert n (fst ` set (g_node g))"
proof (cases "map_of (g_node g) n")
  case None
  assume "fst ` set (g_adj g) = fst ` set (g_node g)"
  with None show ?thesis by (simp add: add_node_def dom_update)
next
  case (Some a)
  assume k: "fst ` set (g_adj g) = fst ` set (g_node g)"
  from Some have "n \<in> fst ` set (g_node g)"
    by (metis map_of_eq_None_iff option.distinct(1))
  with Some k show ?thesis by (auto simp: add_node_def)
qed

lemma wf_add_node_map: "wf_map g \<Longrightarrow> wf_map (add_node g n upd)"
proof (rule wf_mapI)
  assume w: "wf_map g"
  show "distinct (map fst (g_node (add_node g n upd)))"
    using wf_mapD(1) [OF w] by (simp add: add_node_def distinct_update split: option.splits)
  show "distinct (map fst (g_adj (add_node g n upd)))"
    using wf_mapD(2) [OF w] by (simp add: add_node_def distinct_update split: option.splits)
  show "fst ` set (g_adj (add_node g n upd)) = fst ` set (g_node (add_node g n upd))"
    using add_node_adj_keys [OF wf_mapD(3) [OF w]] by (simp add: add_node_node_keys)
  show "distinct (map fst (adj_list (g_adj (add_node g n upd)) u))" for u
    using wf_mapD(4) [OF w] by (simp add: add_node_adj_list [OF w])
  show "edge_attr (add_node g n upd) v u = Some d"
    if "edge_attr (add_node g n upd) u v = Some d" for u v d
  proof -
    from that have "edge_attr g u v = Some d" by (simp add: add_node_edge_attr [OF w])
    then have "edge_attr g v u = Some d" by (rule wf_mapD(5) [OF w])
    then show ?thesis by (simp add: add_node_edge_attr [OF w])
  qed
qed

lemma wf_add_node: "wf_graph g \<Longrightarrow> wf_graph (add_node g n upd)"
  by (simp add: wf_graph_map wf_add_node_map)

text \<open>An edge between two nodes of the graph.\<close>

lemma add_edge_present:
  "has_node g u \<Longrightarrow> has_node g v \<Longrightarrow> add_edge g u v d = g\<lparr>g_adj := set_edge (g_adj g) u v d\<rparr>"
  by (simp add: add_edge_def)

lemma wf_set_edge_map:
  assumes w: "wf_map g" and u: "has_node g u" and v: "has_node g v"
  shows "wf_map (g\<lparr>g_adj := set_edge (g_adj g) u v d\<rparr>)"
proof (rule wf_mapI)
  let ?g = "g\<lparr>g_adj := set_edge (g_adj g) u v d\<rparr>"
  note dl = wf_mapD(4) [OF w] and sy = wf_mapD(5) [OF w]
  show "distinct (map fst (g_node ?g))" using wf_mapD(1) [OF w] by simp
  show "distinct (map fst (g_adj ?g))" using wf_mapD(2) [OF w] by (simp add: set_edge_distinct)
  show "fst ` set (g_adj ?g) = fst ` set (g_node ?g)"
    using wf_mapD(3) [OF w] u v by (auto simp: set_edge_keys has_node_keys)
  show "distinct (map fst (adj_list (g_adj ?g) x))" for x
    using dl by (simp add: set_edge_nb_distinct)
  show "edge_attr ?g y x = Some e" if "edge_attr ?g x y = Some e" for x y e
  proof (cases "(x = u \<and> y = v) \<or> (x = v \<and> y = u)")
    case True
    with that show ?thesis by (auto simp: edge_attr_def set_edge_lookup)
  next
    case False
    with that have "edge_attr g x y = Some e" by (simp add: edge_attr_def set_edge_lookup)
    then have "edge_attr g y x = Some e" by (rule sy)
    with False show ?thesis by (auto simp: edge_attr_def set_edge_lookup)
  qed
qed

lemma wf_add_edge: "wf_graph g \<Longrightarrow> wf_graph (add_edge g u v d)"
proof -
  assume w: "wf_graph g"
  define g1 where "g1 = (if has_node g u then g else add_node g u id)"
  define g2 where "g2 = (if has_node g1 v then g1 else add_node g1 v id)"
  have w1: "wf_map g1" using w by (simp add: g1_def wf_graph_map wf_add_node_map)
  then have w2: "wf_map g2" by (simp add: g2_def wf_add_node_map)
  have u1: "has_node g1 u" by (simp add: g1_def has_node_keys add_node_node_keys)
  then have u2: "has_node g2 u" by (simp add: g2_def has_node_keys add_node_node_keys)
  have v2: "has_node g2 v" by (simp add: g2_def has_node_keys add_node_node_keys)
  have "add_edge g u v d = g2\<lparr>g_adj := set_edge (g_adj g2) u v d\<rparr>"
    by (simp add: add_edge_def g1_def g2_def Let_def)
  with wf_set_edge_map [OF w2 u2 v2] show ?thesis by (simp add: wf_graph_map)
qed

section \<open>Properties of the content store\<close>

text \<open>
  C1. The claim is that a fetch whose cache lookup misses and whose request raises
  returns a degraded record and never lets an exception out. The handler of line 182
  sets out to do so, and its first statement calls a method that the class does not
  have: for every such fetch the method raises \<open>AttributeError\<close>, and the cache
  directory stays as it was.
\<close>

theorem fetch_failure_raises:
  assumes miss: "map_of d (str_int (py_hash e url) @ ''.json'') = None"
    and fails: "http_get e (rewrite_url url) = Inl x"
  shows "fetch_publication_content e d url cache =
           (Inl (AttributeError ''PublicationProcessor object has no attribute get_title_from_url''), d)"
  using miss fails by (simp add: fetch_publication_content_def get_title_from_url_def)

theorem fetch_failure_raises_witness:
  "fetch_publication_content
     \<lparr>publications_df = [(''Bone loss in orbit'', ''https://www.ncbi.nlm.nih.gov/pmc/articles/PMC1234567'')],
      stop_words = basic_stop_words, word_tokenize = Map.empty, porter_stem = id,
      py_hash = (\<lambda>u. 7), http_get = (\<lambda>u. Inl (RequestException ''timed out'')),
      df_sample = (\<lambda>t n. []), tfidf_top_keywords = (\<lambda>d n. Inr []), time_now = 0\<rparr>
     [] ''https://www.ncbi.nlm.nih.gov/pmc/articles/PMC1234567'' True =
   (Inl (AttributeError ''PublicationProcessor object has no attribute get_title_from_url''), [])"
  by (rule fetch_failure_raises) simp_all

section \<open>Properties of the search engine\<close>

subsection \<open>Exact matching\<close>

lemma str_contains_sublist: "str_contains t q = sublist q t"
  by (induction t) (auto simp: sublist_Cons_right)

text \<open>
  C3, as the claim states it, fails on the empty section text: the empty query is a
  contiguous substring of the empty text, and line 843 returns \<open>False\<close> before the
  containment test.
\<close>

theorem exact_match_empty_text_counterexample:
  "sublist (lower '''') (lower '''') \<and> \<not> text_matches id Map.empty (lower '''') (lower '''') True"
  by (simp add: text_matches_def lower_def)

text \<open>
  C3 (as amended). For a non-empty section text, matching in exact mode succeeds if and
  only if the lower-cased query is a contiguous substring of the lower-cased section
  text; an empty section text never matches, not even the empty query.
\<close>

theorem exact_match_iff_substring:
  "text_matches stem tok (lower text) (lower query) True =
     (text \<noteq> [] \<and> sublist (lower query) (lower text))"
  by (simp add: text_matches_def str_contains_sublist lower_def)

theorem exact_match_iff_substring_witness:
  "text_matches id Map.empty (lower ''Cell Growth in Space'') (lower ''GROWTH in'') True \<and>
   sublist (lower ''GROWTH in'') (lower ''Cell Growth in Space'')"
proof -
  have "text_matches id Map.empty (lower ''Cell Growth in Space'') (lower ''GROWTH in'') True"
    by code_simp
  with exact_match_iff_substring [of id Map.empty "''Cell Growth in Space''" "''GROWTH in''"]
  show ?thesis by simp
qed

subsection \<open>Fuzzy matching\<close>

lemma variation_found_spec:
  "variation_found text w =
     (whole_word w text \<or> whole_word (w @ ''s'') text \<or>
      (endswith w ''s'' \<and> whole_word (butlast w) text) \<or>
      (endswith w ''es'' \<and> whole_word (take (length w - 2) w) text) \<or>
      (endswith w ''ies'' \<and> whole_word (take (length w - 3) w @ ''y'') text))"
  by (simp add: variation_found_def whole_word_def Let_def)

lemma match_words_iff:
  "match_words stem (text_stems stem tok text) text ws =
     (\<forall>w \<in> set ws. word_matches_spec stem tok text w)"
proof (induction ws)
  case Nil
  show ?case by simp
next
  case (Cons w ws)
  show ?case
  proof (cases "stem w \<in> set (text_stems stem tok text)")
    case True
    then show ?thesis using Cons.IH by (simp add: word_matches_spec_def)
  next
    case out: False
    show ?thesis
    proof (cases "length w \<le> 3")
      case True
      then show ?thesis using out Cons.IH
        by (auto simp: word_matches_spec_def whole_word_def)
    next
      case False
      then show ?thesis using out Cons.IH
        by (auto simp: word_matches_spec_def variation_found_spec)
    qed
  qed
qed

lemma split_cell_growth: "split (lower ''cell growth'') = [''cell'', ''growth'']"
  by code_simp

text \<open>
  C4. In fuzzy mode a section matches a query exactly when the section text is not empty
  and every blank-separated word of the lower-cased query matches by itself: by its stem
  among the section's stems, by a whole-word occurrence of the literal word, or, for a
  word longer than 3 characters, by a whole-word occurrence of one of its four
  variations. In particular a section with no form of \<open>growth\<close> does not match the
  query \<open>cell growth\<close>, whatever it holds of \<open>cell\<close>.
\<close>

theorem fuzzy_match_conjunctive:
  "text_matches stem tok text query False =
     (text \<noteq> [] \<and> (\<forall>w \<in> set (split (lower query)). word_matches_spec stem tok text w)) \<and>
   (\<not> word_matches_spec stem tok text ''growth'' \<longrightarrow>
      \<not> text_matches stem tok text ''cell growth'' False)"
proof -
  have iff: "\<And>q. text_matches stem tok text q False =
     (text \<noteq> [] \<and> (\<forall>w \<in> set (split (lower q)). word_matches_spec stem tok text w))"
    unfolding text_matches_def match_words_iff by simp
  have "\<not> word_matches_spec stem tok text ''growth'' \<longrightarrow>
      \<not> text_matches stem tok text ''cell growth'' False"
    unfolding iff split_cell_growth by simp
  with iff show ?thesis by blast
qed

theorem fuzzy_match_conjunctive_witness:
  "text_matches id Map.empty ''cell growth increases'' ''cell growth'' False \<and>
   word_matches_spec id Map.empty ''cell growth increases'' ''cell'' \<and>
   word_matches_spec id Map.empty ''cell growth increases'' ''growth'' \<and>
   \<not> word_matches_spec id Map.empty ''cell'' ''growth'' \<and>
   \<not> text_matches id Map.empty ''cell'' ''cell growth'' False"
proof -
  have m: "text_matches id Map.empty ''cell growth increases'' ''cell growth'' False"
    by code_simp
  have n: "\<not> word_matches_spec id Map.empty ''cell'' ''growth''"
    by code_simp
  have s: "split (lower ''cell growth'') = [''cell'', ''growth'']"
    by code_simp
  from fuzzy_match_conjunctive [of id Map.empty "''cell growth increases''" "''cell growth''"] m s
  have "word_matches_spec id Map.empty ''cell growth increases'' ''cell'' \<and>
        word_matches_spec id Map.empty ''cell growth increases'' ''growth''"
    by simp
  moreover from fuzzy_match_conjunctive [of id Map.empty "''cell''" "''cell growth''"] n
  have "\<not> text_matches id Map.empty ''cell'' ''cell growth'' False"
    by blast
  ultimately show ?thesis using m n by blast
qed

subsection \<open>A matching section without a snippet\<close>

lemma run_facts:
  "lower ''the cells are running'' = ''the cells are running''"
  "lower ''run'' = ''run''"
  "split ''run'' = [''run'']"
  "variations ''run'' = [''run'']"
  "re_search_word ''run'' ''the cells are running'' = None"
  "str_int 42 = ''42''"
  "takeWhile (\<lambda>ch. ch \<noteq> CHR ''.'') ''42.json'' = ''42''"
  "cache_files [(''42.json'', f)] = [(''42.json'', f)]"
  "lower [] = []"
  by (code_simp+)

text \<open>
  C10. There is a cached document and a fuzzy query for which the search returns a
  result with a matching section and no snippet: the abstract \<open>The cells are running\<close>
  matches the query \<open>run\<close> as soon as the stem of \<open>run\<close> is among the stems of the
  abstract's tokens (the Porter stemmer maps \<open>running\<close> to \<open>run\<close>), while the snippet
  extraction looks for the whole word \<open>run\<close> only, which the abstract does not hold.
\<close>

theorem stem_match_without_snippet:
  assumes df: "publications_df e = [(''Locomotion in orbit'', ''u1'')]"
    and h: "py_hash e ''u1'' = 42"
    and st: "porter_stem e ''run'' \<in>
               set (text_stems (porter_stem e) (word_tokenize e) ''the cells are running'')"
  shows "search_publications_full_text e
           [(''42.json'',
             Json \<lparr>abstract = ''The cells are running'', results = [], conclusion = [],
                   full_text = ''The cells are running'', source = ''web'',
                   status = ''success'', error = None, timestamp = 0\<rparr>)]
           ''run'' None False =
         [\<lparr>r_title = ''Locomotion in orbit'', r_url = ''u1'',
           matching_sections = [''abstract''], snippets = []\<rparr>]"
proof -
  let ?t = "''the cells are running''"
  have lo: "lower ''The cells are running'' = ?t" by code_simp
  have m: "text_matches (porter_stem e) (word_tokenize e) ?t ''run'' False"
    using st by (simp add: text_matches_def run_facts)
  have sn: "extract_context_snippets ?t ''run'' False 100 2 = []"
    by (simp add: extract_context_snippets_def run_facts)
  have hm: "url_hash_map_of e ''42'' = Some (''Locomotion in orbit'', ''u1'')"
    by (simp add: url_hash_map_of_def add_row_hash_def df h run_facts startswith_def)
  have em: "\<not> text_matches (porter_stem e) (word_tokenize e) [] ''run'' False"
    by (simp add: text_matches_def)
  show ?thesis
    by (simp add: search_publications_full_text_def run_facts search_file_def
        lookup_publication_def hm matched_sections_def try_section_def lo m em
        context_snippets_of_def sn)
qed

theorem stem_match_without_snippet_witness:
  "search_publications_full_text
     \<lparr>publications_df = [(''Locomotion in orbit'', ''u1'')], stop_words = [],
      word_tokenize = Map.empty, porter_stem = take 3,
      py_hash = (\<lambda>u. 42), http_get = (\<lambda>u. Inl (RequestException ''offline'')),
      df_sample = (\<lambda>t n. []), tfidf_top_keywords = (\<lambda>d n. Inr []), time_now = 0\<rparr>
     [(''42.json'',
       Json \<lparr>abstract = ''The cells are running'', results = [], conclusion = [],
             full_text = ''The cells are running'', source = ''web'',
             status = ''success'', error = None, timestamp = 0\<rparr>)]
     ''run'' None False =
   [\<lparr>r_title = ''Locomotion in orbit'', r_url = ''u1'',
     matching_sections = [''abstract''], snippets = []\<rparr>]"
proof -
  let ?e = "\<lparr>publications_df = [(''Locomotion in orbit'', ''u1'')], stop_words = [],
      word_tokenize = Map.empty, porter_stem = take 3,
      py_hash = (\<lambda>u. 42), http_get = (\<lambda>u. Inl (RequestException ''offline'')),
      df_sample = (\<lambda>t n. []), tfidf_top_keywords = (\<lambda>d n. Inr []), time_now = 0\<rparr>"
  have "porter_stem ?e ''run'' \<in>
          set (text_stems (porter_stem ?e) (word_tokenize ?e) ''the cells are running'')"
    by code_simp
  from stem_match_without_snippet [of ?e, OF _ _ this] show ?thesis by simp
qed

section \<open>Properties of the similarity engine\<close>

lemma keys_bump: "fst ` set (bump k d) = insert k (fst ` set d)"
  by (simp add: bump_def dom_update)

lemma tally_neighbors_keys:
  "tally_neighbors g title ns sp = Inr sp' \<Longrightarrow> title \<notin> fst ` set sp \<Longrightarrow> title \<notin> fst ` set sp'"
proof (induction ns arbitrary: sp)
  case Nil
  then show ?case by simp
next
  case (Cons node ns)
  show ?case
  proof (cases "node = title")
    case True
    with Cons show ?thesis by simp
  next
    case False
    with Cons.prems obtain t where t: "node_type g node = Inr t"
      and r: "tally_neighbors g title ns
                (if t = ''publication'' then bump node sp else sp) = Inr sp'"
      by (auto split: sum.splits)
    have "title \<notin> fst ` set (if t = ''publication'' then bump node sp else sp)"
      using False Cons.prems(2) by (simp add: keys_bump)
    with Cons.IH r show ?thesis by blast
  qed
qed

lemma tally_keywords_keys:
  "tally_keywords g title ks sp = Inr sp' \<Longrightarrow> title \<notin> fst ` set sp \<Longrightarrow> title \<notin> fst ` set sp'"
proof (induction ks arbitrary: sp)
  case Nil
  then show ?case by simp
next
  case (Cons k ks)
  from Cons.prems obtain ns sp1 where "neighbors g k = Inr ns"
    and s1: "tally_neighbors g title ns sp = Inr sp1"
    and s2: "tally_keywords g title ks sp1 = Inr sp'"
    by (auto split: sum.splits)
  from Cons.IH [OF s2 tally_neighbors_keys [OF s1 Cons.prems(2)]] show ?case .
qed

lemma set_sorted_desc: "set (sorted_desc k xs) = set xs"
  by (simp add: sorted_desc_def)

lemma sorted_desc_sorted: "sorted_wrt (\<lambda>a b. k b \<le> k a) (sorted_desc k xs)"
proof -
  have "sorted (map (\<lambda>x. - k x) (sort_key (\<lambda>x. - k x) xs))"
    by (rule sorted_sort_key)
  then show ?thesis
    by (simp add: sorted_desc_def sorted_map sorted_wrt_iff_nth_less)
qed

lemma set_slice_to: "set (slice_to n xs) \<subseteq> set xs"
  by (auto simp: slice_to_def dest: in_set_takeD)

lemma sorted_wrt_slice_to: "sorted_wrt P xs \<Longrightarrow> sorted_wrt P (slice_to n xs)"
  by (simp add: slice_to_def sorted_wrt_take)

lemma graph_ok_type:
  "graph_ok g \<Longrightarrow> has_node g n \<Longrightarrow> \<exists>t. node_type g n = Inr t"
  by (auto simp: graph_ok_def has_node_def node_type_def split: option.splits
      dest!: map_of_SomeD)

lemma keywords_among_total:
  "graph_ok g \<Longrightarrow> \<forall>n \<in> set ns. has_node g n \<Longrightarrow> \<exists>r. keywords_among g ns = Inr r \<and> set r \<subseteq> set ns"
proof (induction ns)
  case Nil
  show ?case by simp
next
  case (Cons n ns)
  then obtain t r where "node_type g n = Inr t" "keywords_among g ns = Inr r" "set r \<subseteq> set ns"
    using graph_ok_type [of g n] by auto
  then show ?case by auto
qed

lemma tally_neighbors_total:
  "graph_ok g \<Longrightarrow> \<forall>n \<in> set ns. has_node g n \<Longrightarrow> \<exists>r. tally_neighbors g title ns sp = Inr r"
proof (induction ns arbitrary: sp)
  case Nil
  show ?case by simp
next
  case (Cons n ns)
  then obtain t where "node_type g n = Inr t"
    using graph_ok_type [of g n] by auto
  with Cons show ?case by auto
qed

lemma graph_ok_neighbors:
  "graph_ok g \<Longrightarrow> has_node g n \<Longrightarrow> \<exists>ns. neighbors g n = Inr ns \<and> (\<forall>m \<in> set ns. has_node g m)"
proof -
  assume ok: "graph_ok g" and n: "has_node g n"
  from n have "n \<in> fst ` set (g_node g)"
    by (auto simp: has_node_def dest!: map_of_SomeD intro: rev_image_eqI)
  with ok have "n \<in> fst ` set (g_adj g)" by (simp add: graph_ok_def)
  then obtain nb where nb: "map_of (g_adj g) n = Some nb"
    by (metis map_of_eq_None_iff not_Some_eq)
  then have "(n, nb) \<in> set (g_adj g)" by (rule map_of_SomeD)
  with ok have "\<forall>m \<in> set (map fst nb). has_node g m"
    by (fastforce simp: graph_ok_def)
  with nb show ?thesis by (simp add: neighbors_def)
qed

lemma tally_keywords_total:
  "graph_ok g \<Longrightarrow> \<forall>k \<in> set ks. has_node g k \<Longrightarrow> \<exists>r. tally_keywords g title ks sp = Inr r"
proof (induction ks arbitrary: sp)
  case Nil
  show ?case by simp
next
  case (Cons k ks)
  from graph_ok_neighbors [of g k] Cons.prems obtain ns
    where ns: "neighbors g k = Inr ns" "\<forall>m \<in> set ns. has_node g m" by auto
  from tally_neighbors_total [OF Cons.prems(1) ns(2)] obtain sp1
    where "tally_neighbors g title ns sp = Inr sp1" by blast
  with ns Cons show ?case by auto
qed

lemma get_similar_total:
  assumes ok: "graph_ok g"
  shows "\<exists>r. get_similar_publications g title n = Inr r"
proof (cases "has_node g title")
  case False
  then show ?thesis by (simp add: get_similar_publications_def)
next
  case True
  from graph_ok_neighbors [OF ok True] obtain ns
    where ns: "neighbors g title = Inr ns" "\<forall>m \<in> set ns. has_node g m" by blast
  from keywords_among_total [OF ok ns(2)] obtain kws
    where kws: "keywords_among g ns = Inr kws" "set kws \<subseteq> set ns" by blast
  with ns have "\<forall>k \<in> set kws. has_node g k" by blast
  from tally_keywords_total [OF ok this] obtain sp
    where "tally_keywords g title kws [] = Inr sp" by blast
  with True ns kws show ?thesis by (simp add: get_similar_publications_def)
qed

lemma similar_props:
  assumes "get_similar_publications g title n = Inr res"
  shows "title \<notin> fst ` set res \<and> sorted_wrt (\<lambda>a b. snd b \<le> snd a) res"
proof (cases "has_node g title")
  case False
  with assms show ?thesis by (simp add: get_similar_publications_def)
next
  case True
  with assms obtain ns kws sp where "neighbors g title = Inr ns"
    and "keywords_among g ns = Inr kws"
    and t: "tally_keywords g title kws [] = Inr sp"
    and res: "res = slice_to n (sorted_desc snd sp)"
    by (auto simp: get_similar_publications_def split: sum.splits)
  from tally_keywords_keys [OF t] have "title \<notin> fst ` set sp" by simp
  then have "title \<notin> fst ` set res"
    using set_slice_to [of n "sorted_desc snd sp"] by (auto simp: res set_sorted_desc)
  moreover have "sorted_wrt (\<lambda>a b. snd b \<le> snd a) res"
    unfolding res by (rule sorted_wrt_slice_to) (rule sorted_desc_sorted)
  ultimately show ?thesis ..
qed

text \<open>
  C5. Whatever the graph, the title and \<open>n\<close>, a list returned by
  \<open>get_similar_publications\<close> holds no pair of the queried title, and its counts do not
  increase from first to last. On a graph whose nodes all have a type and whose
  neighbours are all nodes, as every built graph is, the method does return a list.
\<close>

theorem similar_excludes_title_and_descends:
  "(get_similar_publications g title n = Inr res \<longrightarrow>
      title \<notin> fst ` set res \<and> sorted_wrt (\<lambda>a b. snd b \<le> snd a) res) \<and>
   (graph_ok g \<longrightarrow> (\<exists>r. get_similar_publications g title n = Inr r))"
  using similar_props [of g title n res] get_similar_total [of g title n] by blast

theorem similar_excludes_title_and_descends_witness:
  "get_similar_publications
     \<lparr>g_node = [(''A'', \<lparr>n_type = Some ''publication'', n_url = Some ''u1'', n_themes = Some []\<rparr>),
                (''bone'', \<lparr>n_type = Some ''keyword'', n_url = None, n_themes = None\<rparr>),
                (''cell'', \<lparr>n_type = Some ''keyword'', n_url = None, n_themes = None\<rparr>),
                (''B'', \<lparr>n_type = Some ''publication'', n_url = Some ''u2'', n_themes = Some []\<rparr>),
                (''C'', \<lparr>n_type = Some ''publication'', n_url = Some ''u3'', n_themes = Some []\<rparr>)],
       g_adj = [(''A'', [(''bone'', \<lparr>e_weight = 1, e_section = ''abstract''\<rparr>),
                         (''cell'', \<lparr>e_weight = 2, e_section = ''abstract''\<rparr>)]),
                (''bone'', [(''A'', \<lparr>e_weight = 1, e_section = ''abstract''\<rparr>),
                            (''B'', \<lparr>e_weight = 1, e_section = ''abstract''\<rparr>),
                            (''C'', \<lparr>e_weight = 3, e_section = ''conclusion''\<rparr>)]),
                (''cell'', [(''A'', \<lparr>e_weight = 2, e_section = ''abstract''\<rparr>),
                            (''C'', \<lparr>e_weight = 1, e_section = ''abstract''\<rparr>)]),
                (''B'', [(''bone'', \<lparr>e_weight = 1, e_section = ''abstract''\<rparr>)]),
                (''C'', [(''bone'', \<lparr>e_weight = 3, e_section = ''conclusion''\<rparr>),
                         (''cell'', \<lparr>e_weight = 1, e_section = ''abstract''\<rparr>)])]\<rparr>
     ''A'' 5 = Inr [(''C'', 2), (''B'', 1)] \<and>
   ''A'' \<notin> fst ` set [(''C'', 2::int), (''B'', 1)] \<and>
   sorted_wrt (\<lambda>a b. snd b \<le> snd a) [(''C'', 2::int), (''B'', 1)]"
proof -
  let ?g = "\<lparr>g_node = [(''A'', \<lparr>n_type = Some ''publication'', n_url = Some ''u1'', n_themes = Some []\<rparr>),
                (''bone'', \<lparr>n_type = Some ''keyword'', n_url = None, n_themes = None\<rparr>),
                (''cell'', \<lparr>n_type = Some ''keyword'', n_url = None, n_themes = None\<rparr>),
                (''B'', \<lparr>n_type = Some ''publication'', n_url = Some ''u2'', n_themes = Some []\<rparr>),
                (''C'', \<lparr>n_type = Some ''publication'', n_url = Some ''u3'', n_themes = Some []\<rparr>)],
       g_adj = [(''A'', [(''bone'', \<lparr>e_weight = 1, e_section = ''abstract''\<rparr>),
                         (''cell'', \<lparr>e_weight = 2, e_section = ''abstract''\<rparr>)]),
                (''bone'', [(''A'', \<lparr>e_weight = 1, e_section = ''abstract''\<rparr>),
                            (''B'', \<lparr>e_weight = 1, e_section = ''abstract''\<rparr>),
                            (''C'', \<lparr>e_weight = 3, e_section = ''conclusion''\<rparr>)]),
                (''cell'', [(''A'', \<lparr>e_weight = 2, e_section = ''abstract''\<rparr>),
                            (''C'', \<lparr>e_weight = 1, e_section = ''abstract''\<rparr>)]),
                (''B'', [(''bone'', \<lparr>e_weight = 1, e_section = ''abstract''\<rparr>)]),
                (''C'', [(''bone'', \<lparr>e_weight = 3, e_section = ''conclusion''\<rparr>),
                         (''cell'', \<lparr>e_weight = 1, e_section = ''abstract''\<rparr>)])]\<rparr>"
  have r: "get_similar_publications ?g ''A'' 5 = Inr [(''C'', 2), (''B'', 1)]"
    by code_simp
  from similar_excludes_title_and_descends [of ?g "''A''" 5 "[(''C'', 2), (''B'', 1)]"] r
  show ?thesis by blast
qed

end
